theory Spec2Isabelle
  imports Main "HOL-Library.Word" "HOL-Library.Sublist"
begin

unbundle bit_operations_syntax

section \<open>Python values used by app.py\<close>

text \<open>
  Byte strings are lists of 8-bit words. Text is \<open>string\<close>; a character stands for a
  code point below 256. An exception value carries its class name and the text that
  \<^verbatim>\<open>str(e)\<close> returns; a call that may raise returns \<open>exn + 'a\<close>, with \<open>Inl\<close> the raise.
\<close>

type_synonym byte = "8 word"
type_synonym bytes = "byte list"

datatype exn = Exception (exn_class: string) (str_exn: string)

text \<open>How an f-string prints a value that is a string or \<^verbatim>\<open>None\<close>.\<close>

fun fmt :: "string option \<Rightarrow> string" where
  "fmt None = ''None''"
| "fmt (Some s) = s"

definition digit_char :: "nat \<Rightarrow> char" where
  "digit_char d = ''0123456789'' ! d"

text \<open>Decimal printing of the record counter in \<^verbatim>\<open>f"{idx}"\<close>.\<close>

function string_of_nat :: "nat \<Rightarrow> string" where
  "string_of_nat n =
     (if n < 10 then [digit_char n]
      else string_of_nat (n div 10) @ [digit_char (n mod 10)])"
  by pat_completeness auto
termination
  by (relation "measure id") auto

text \<open>
  \<^verbatim>\<open>str.strip()\<close> removes leading and trailing whitespace. The whitespace code points
  below 256 are TAB..CR, FS..US, space, NEL and NBSP.
\<close>

definition py_isspace :: "char \<Rightarrow> bool" where
  "py_isspace c =
     (let n = (of_char c :: nat)
      in (9 \<le> n \<and> n \<le> 13) \<or> (28 \<le> n \<and> n \<le> 32) \<or> n = 133 \<or> n = 160)"

definition strip :: "string \<Rightarrow> string" where
  "strip s = rev (dropWhile py_isspace (rev (dropWhile py_isspace s)))"

section \<open>base64 of the standard library\<close>

definition b64_alphabet :: string where
  "b64_alphabet = ''ABCDEFGHIJKLMNOPQRSTUVWXYZabcdefghijklmnopqrstuvwxyz0123456789+/''"

definition table_b2a_base64 :: "byte \<Rightarrow> char" where
  "table_b2a_base64 w = b64_alphabet ! unat w"

text \<open>The decoding table: the position of a character in the alphabet, 255 when absent.\<close>

definition table_a2b_base64 :: "char \<Rightarrow> byte" where
  "table_a2b_base64 c =
     (if c \<in> set b64_alphabet
      then of_nat (length (takeWhile (\<lambda>x. x \<noteq> c) b64_alphabet))
      else 255)"

text \<open>
  \<^verbatim>\<open>base64.b64encode\<close>: three bytes become four characters; a last group of one or
  two bytes is padded with \<^verbatim>\<open>=\<close>. The result is ASCII, so \<^verbatim>\<open>.decode("utf-8")\<close>
  yields the same characters.
\<close>

fun b64encode :: "bytes \<Rightarrow> string" where
  "b64encode [] = []"
| "b64encode [a] =
     [table_b2a_base64 (drop_bit 2 a),
      table_b2a_base64 (push_bit 4 (a AND 3)),
      CHR ''='', CHR ''='']"
| "b64encode [a, b] =
     [table_b2a_base64 (drop_bit 2 a),
      table_b2a_base64 (push_bit 4 (a AND 3) OR drop_bit 4 b),
      table_b2a_base64 (push_bit 2 (b AND 15)),
      CHR ''='']"
| "b64encode (a # b # c # rest) =
     [table_b2a_base64 (drop_bit 2 a),
      table_b2a_base64 (push_bit 4 (a AND 3) OR drop_bit 4 b),
      table_b2a_base64 (push_bit 2 (b AND 15) OR drop_bit 6 c),
      table_b2a_base64 (c AND 63)] @ b64encode rest"

text \<open>
  The decoder in its default, non-strict mode: a character outside the alphabet is
  skipped, a pad character counts only once two characters of a group have been read,
  a complete pad sequence ends the input, and an incomplete last group is an error.
\<close>

fun a2b_loop :: "nat \<Rightarrow> byte \<Rightarrow> nat \<Rightarrow> bytes \<Rightarrow> string \<Rightarrow> exn + bytes" where
  "a2b_loop quad_pos leftchar pads bin_data [] =
     (if quad_pos \<noteq> 0 then
        (if quad_pos = 1 then
           Inl (Exception ''binascii.Error''
                  (''Invalid base64-encoded string: number of data characters (''
                   @ string_of_nat (length bin_data div 3 * 4 + 1)
                   @ '') cannot be 1 more than a multiple of 4''))
         else Inl (Exception ''binascii.Error'' ''Incorrect padding''))
      else Inr bin_data)"
| "a2b_loop quad_pos leftchar pads bin_data (this_ch # ascii_data) =
     (if this_ch = CHR ''='' then
        (if 2 \<le> quad_pos then
           (if 4 \<le> quad_pos + Suc pads then Inr bin_data
            else a2b_loop quad_pos leftchar (Suc pads) bin_data ascii_data)
         else a2b_loop quad_pos leftchar pads bin_data ascii_data)
      else if 64 \<le> table_a2b_base64 this_ch then
        a2b_loop quad_pos leftchar pads bin_data ascii_data
      else if quad_pos = 0 then
        a2b_loop 1 (table_a2b_base64 this_ch) 0 bin_data ascii_data
      else if quad_pos = 1 then
        a2b_loop 2 (table_a2b_base64 this_ch AND 15) 0
          (bin_data @ [push_bit 2 leftchar OR drop_bit 4 (table_a2b_base64 this_ch)])
          ascii_data
      else if quad_pos = 2 then
        a2b_loop 3 (table_a2b_base64 this_ch AND 3) 0
          (bin_data @ [push_bit 4 leftchar OR drop_bit 2 (table_a2b_base64 this_ch)])
          ascii_data
      else
        a2b_loop 0 0 0
          (bin_data @ [push_bit 6 leftchar OR table_a2b_base64 this_ch])
          ascii_data)"

definition a2b_base64 :: "string \<Rightarrow> exn + bytes" where
  "a2b_base64 s = a2b_loop 0 0 0 [] s"

text \<open>
  \<^verbatim>\<open>base64.b64decode\<close> of a \<^verbatim>\<open>str\<close>: the text is first encoded as ASCII, which
  raises on any other character.
\<close>

definition b64decode :: "string \<Rightarrow> exn + bytes" where
  "b64decode s =
     (if list_ex (\<lambda>c. 128 \<le> (of_char c :: nat)) s
      then Inl (Exception ''ValueError''
                  ''string argument should contain only ASCII characters'')
      else a2b_base64 s)"

section \<open>The conversations table\<close>

text \<open>
  A row has the five columns of the \<^verbatim>\<open>CREATE TABLE\<close> statement; every \<^verbatim>\<open>TEXT\<close>
  column may hold \<^verbatim>\<open>NULL\<close>, which is \<open>None\<close>. The table keeps its rows in the order
  of insertion, and the largest identifier ever handed out (\<^verbatim>\<open>AUTOINCREMENT\<close>).
\<close>

record row =
  row_id :: nat
  user_prompt :: "string option"
  base64_image :: "string option"
  bot_response :: "string option"
  timestamp :: "string option"

record conversations =
  rows :: "row list"
  seq :: nat

definition empty_table :: conversations where
  "empty_table = \<lparr>rows = [], seq = 0\<rparr>"

text \<open>\<^verbatim>\<open>CREATE TABLE IF NOT EXISTS\<close> on a database file that may or may not hold the table.\<close>

fun create_table_if_not_exists :: "conversations option \<Rightarrow> conversations" where
  "create_table_if_not_exists None = empty_table"
| "create_table_if_not_exists (Some t) = t"

text \<open>
  The identifier of a new row is one more than the largest identifier that ever
  existed in the table.
\<close>

definition next_id :: "conversations \<Rightarrow> nat" where
  "next_id t = Suc (fold max (map row_id (rows t)) (seq t))"

definition insert_row ::
  "string option \<Rightarrow> string option \<Rightarrow> string option \<Rightarrow> string option
     \<Rightarrow> conversations \<Rightarrow> conversations" where
  "insert_row up img resp ts t =
     \<lparr>rows = rows t @
        [\<lparr>row_id = next_id t, user_prompt = up, base64_image = img,
          bot_response = resp, timestamp = ts\<rparr>],
      seq = next_id t\<rparr>"

type_synonym convo = "string option \<times> string option \<times> string option \<times> string option"

definition select_desc :: "conversations \<Rightarrow> convo list" where
  "select_desc t =
     map (\<lambda>r. (user_prompt r, base64_image r, bot_response r, timestamp r))
       (rev (sort_key row_id (rows t)))"

section \<open>The environment of a run\<close>

text \<open>
  The image library, the model API, the clock and the page framework are not part of
  the program; they are parameters. \<open>image_open\<close> is \<^verbatim>\<open>Image.open\<close> on the bytes
  of a file; it reads the header only, the pixel data is decoded when it is first needed.
  \<open>image_save\<close> is \<^verbatim>\<open>Image.save\<close> into a buffer with the given format name,
  \<open>sidebar_image\<close> is \<^verbatim>\<open>st.sidebar.image\<close>, which returns \<open>None\<close> when it has
  shown the image and the exception when it raises,
  \<open>chat_completions_create\<close> answers a request with the contents of the choices it
  returns, and \<open>now_strftime\<close> is the current time printed as
  \<^verbatim>\<open>%Y-%m-%d %H:%M:%S\<close>. Each of the library calls may raise. The text of the
  exceptions that \<^verbatim>\<open>st.secrets\<close> raises is the framework's:
  \<open>missing_key_text\<close> for a key that is not in the secrets, \<open>no_secrets_text\<close> when
  there is no secrets file at all.
\<close>

datatype content_part = Text_part string | Image_url_part string

record message =
  role :: string
  content :: "content_part list"

record request =
  model :: string
  messages :: "message list"
  max_tokens :: nat

record 'img env =
  image_open :: "bytes \<Rightarrow> exn + 'img"
  image_save :: "'img \<Rightarrow> string \<Rightarrow> exn + bytes"
  sidebar_image :: "'img \<Rightarrow> exn option"
  chat_completions_create :: "request \<Rightarrow> exn + string list"
  now_strftime :: string
  missing_key_text :: "string \<Rightarrow> string"
  no_secrets_text :: string

text \<open>
  What a run has done so far: the table, the elements written to the page in order,
  and the requests sent to the API in order. The widgets that only read input are not
  recorded. \<open>Exception_box\<close> is the box in which the framework shows an exception that
  has left the script.
\<close>

datatype 'img ui_event =
    Title string
  | Write string
  | Error string
  | Warning string
  | Subheader string
  | Sidebar_header string
  | Sidebar_markdown string
  | Sidebar_image 'img string
  | Sidebar_write string
  | Exception_box exn

record 'img world =
  db :: conversations
  ui :: "'img ui_event list"
  api_log :: "request list"

definition show_ui :: "'img ui_event list \<Rightarrow> 'img world \<Rightarrow> 'img world" where
  "show_ui es w = w\<lparr>ui := ui w @ es\<rparr>"

section \<open>The functions of app.py\<close>

definition save_conversation ::
  "'img env \<Rightarrow> string \<Rightarrow> string option \<Rightarrow> string \<Rightarrow> conversations \<Rightarrow> conversations" where
  "save_conversation env up img resp t =
     insert_row (Some up) img (Some resp) (Some (now_strftime env)) t"

definition load_conversations :: "conversations \<Rightarrow> convo list" where
  "load_conversations t = select_desc t"

definition encode_image_to_base64 :: "'img env \<Rightarrow> 'img \<Rightarrow> exn + string" where
  "encode_image_to_base64 env pil_image =
     (case image_save env pil_image ''PNG'' of
        Inl e \<Rightarrow> Inl e
      | Inr buffered \<Rightarrow> Inr (b64encode buffered))"

text \<open>
  The expression \<^verbatim>\<open>encode_image_to_base64(image) if image else None\<close>, which
  lines 81 and 139 both evaluate.
\<close>

definition encode_if_present :: "'img env \<Rightarrow> 'img option \<Rightarrow> exn + string option" where
  "encode_if_present env image_obj =
     (case image_obj of
        None \<Rightarrow> Inr None
      | Some img \<Rightarrow>
          (case encode_image_to_base64 env img of
             Inl e \<Rightarrow> Inl e
           | Inr s \<Rightarrow> Inr (Some s)))"

text \<open>The image part is added only when the encoded text is neither \<^verbatim>\<open>None\<close> nor empty.\<close>

definition content_list :: "string \<Rightarrow> string option \<Rightarrow> content_part list" where
  "content_list prompt b64 =
     Text_part prompt #
     (case b64 of
        None \<Rightarrow> []
      | Some s \<Rightarrow> if s \<noteq> [] then [Image_url_part (''data:image/png;base64,'' @ s)] else [])"

definition build_request :: "string \<Rightarrow> string option \<Rightarrow> request" where
  "build_request prompt b64 =
     \<lparr>model = ''gpt-4o-mini'',
      messages = [\<lparr>role = ''user'', content = content_list prompt b64\<rparr>],
      max_tokens = 300\<rparr>"

text \<open>
  Lines 92 to 103: the request is sent and the content of the first choice is returned;
  \<^verbatim>\<open>response.choices[0]\<close> raises when no choice came back.
\<close>

definition call_model :: "'img env \<Rightarrow> request \<Rightarrow> exn + string" where
  "call_model env req =
     (case chat_completions_create env req of
        Inl e \<Rightarrow> Inl e
      | Inr [] \<Rightarrow> Inl (Exception ''IndexError'' ''list index out of range'')
      | Inr (c # _) \<Rightarrow> Inr c)"

text \<open>
  The result comes with the requests that were sent: none when encoding the image has
  raised, one otherwise.
\<close>

definition analyze_image_with_prompt ::
  "'img env \<Rightarrow> 'img option \<Rightarrow> string \<Rightarrow> (exn + string) \<times> request list" where
  "analyze_image_with_prompt env image_arg prompt =
     (case encode_if_present env image_arg of
        Inl e \<Rightarrow> (Inl e, [])
      | Inr b64 \<Rightarrow>
          (call_model env (build_request prompt b64), [build_request prompt b64]))"

text \<open>
  Lines 115 to 121: the uploaded file, if any, is opened as an image. The result is
  \<^verbatim>\<open>image_obj\<close> and what was written to the page.
\<close>

definition open_upload :: "'img env \<Rightarrow> bytes option \<Rightarrow> 'img option \<times> 'img ui_event list" where
  "open_upload env uploaded =
     (case uploaded of
        None \<Rightarrow> (None, [])
      | Some f \<Rightarrow>
          (case image_open env f of
             Inr img \<Rightarrow> (Some img, [])
           | Inl e \<Rightarrow> (None, [Error (''Error reading image: '' @ str_exn e)])))"

text \<open>Lines 129 to 132: the response, or the text of the exception that was caught.\<close>

fun response_or_error :: "exn + string \<Rightarrow> string" where
  "response_or_error (Inr r) = r"
| "response_or_error (Inl e) = ''Error: '' @ str_exn e"

text \<open>
  Lines 125 to 140, the body of the Send button. The first component of the result is
  the exception that leaves the block, if one does: line 139 is outside the
  \<^verbatim>\<open>try\<close>.
\<close>

definition send ::
  "'img env \<Rightarrow> string \<Rightarrow> 'img option \<Rightarrow> 'img world \<Rightarrow> exn option \<times> 'img world" where
  "send env prompt image_obj w =
     (if strip prompt = [] \<and> image_obj = None then
        (None, show_ui [Warning ''Please provide a prompt or an image.''] w)
      else
        (let (res, sent) = analyze_image_with_prompt env image_obj prompt;
             bot_resp = response_or_error res;
             w1 = show_ui [Subheader ''Response:'', Write bot_resp]
                    (w\<lparr>api_log := api_log w @ sent\<rparr>)
         in case encode_if_present env image_obj of
              Inl e \<Rightarrow> (Some e, w1)
            | Inr base64_img \<Rightarrow>
                (None, w1\<lparr>db := save_conversation env prompt base64_img bot_resp (db w1)\<rparr>)))"

text \<open>
  Lines 148 to 160: one stored record in the sidebar. The \<^verbatim>\<open>try\<close> of lines 153 to
  158 covers the base64 decoding, the opening of the image and the call that shows it.
\<close>

definition render_image :: "'img env \<Rightarrow> string \<Rightarrow> 'img ui_event list" where
  "render_image env base64_img =
     (case b64decode base64_img of
        Inl e \<Rightarrow> []
      | Inr img_data \<Rightarrow>
          (case image_open env img_data of
             Inl e \<Rightarrow> []
           | Inr img \<Rightarrow>
               (case sidebar_image env img of
                  Some e \<Rightarrow> []
                | None \<Rightarrow> [Sidebar_image img ''Uploaded Image''])))"

fun render_convo :: "'img env \<Rightarrow> nat \<Rightarrow> convo \<Rightarrow> 'img ui_event list" where
  "render_convo env idx (up, base64_img, bot_resp, ts) =
     [Sidebar_markdown (''**'' @ string_of_nat idx @ ''. Timestamp**: '' @ fmt ts),
      Sidebar_markdown (''**User Prompt**: '' @ fmt up)]
     @ (case base64_img of
          None \<Rightarrow> []
        | Some s \<Rightarrow> if s \<noteq> [] then render_image env s else [])
     @ [Sidebar_markdown (''**Bot Response**: '' @ fmt bot_resp),
        Sidebar_write ''---'']"

fun render_convos :: "'img env \<Rightarrow> nat \<Rightarrow> convo list \<Rightarrow> 'img ui_event list" where
  "render_convos env idx [] = []"
| "render_convos env idx (convo # rest) =
     render_convo env idx convo @ render_convos env (Suc idx) rest"

definition load_all :: "'img env \<Rightarrow> 'img world \<Rightarrow> 'img world" where
  "load_all env w =
     (let all_convos = load_conversations (db w)
      in if all_convos \<noteq> [] then show_ui (render_convos env 1 all_convos) w
         else show_ui [Sidebar_write ''No conversations found.''] w)"

text \<open>
  One run of \<^verbatim>\<open>main\<close>: the widgets hand over the prompt, the uploaded file and which
  button was pressed.
\<close>

record input =
  prompt :: string
  uploaded_file :: "bytes option"
  send_clicked :: bool
  load_clicked :: bool

definition page_head :: "'img ui_event list" where
  "page_head =
     [Title ''Simple Image+Text Chatbot with SQLite'',
      Write ''A Streamlit chatbot that can optionally handle images and stores conversations in SQLite.'']"

definition main :: "'img env \<Rightarrow> input \<Rightarrow> 'img world \<Rightarrow> exn option \<times> 'img world" where
  "main env inp w =
     (let (image_obj, shown) = open_upload env (uploaded_file inp);
          w1 = show_ui (page_head @ shown) w;
          (raised, w2) = (if send_clicked inp then send env (prompt inp) image_obj w1
                          else (None, w1))
      in case raised of
           Some e \<Rightarrow> (Some e, w2)
         | None \<Rightarrow>
             (let w3 = show_ui [Sidebar_header ''View Stored Conversations''] w2
              in (None, if load_clicked inp then load_all env w3 else w3)))"

section \<open>The script from its first line\<close>

text \<open>
  How a run of the whole script ends: it reaches the end, it is stopped by
  \<^verbatim>\<open>st.stop()\<close>, or an exception leaves it. In the last case the framework ends
  the run and shows the exception on the page.
\<close>

datatype status = Completed | Stopped | Uncaught exn

record 'img run =
  status :: status
  database :: "conversations option"
  screen :: "'img ui_event list"
  requests :: "request list"

text \<open>
  The secrets of the application: there is no secrets file at all, or a file with the
  keys it defines. Subscripting raises \<^verbatim>\<open>StreamlitSecretNotFoundError\<close> in the first
  case and \<^verbatim>\<open>KeyError\<close> for a key that the file does not define.
\<close>

datatype secret_storage = No_secrets_file | Secrets_toml "string \<rightharpoonup> string"

fun key_absent :: "secret_storage \<Rightarrow> string \<Rightarrow> bool" where
  "key_absent No_secrets_file k = True"
| "key_absent (Secrets_toml m) k = (m k = None)"

definition secrets_getitem :: "'img env \<Rightarrow> secret_storage \<Rightarrow> string \<Rightarrow> exn + string" where
  "secrets_getitem env secrets k =
     (case secrets of
        No_secrets_file \<Rightarrow>
          Inl (Exception ''StreamlitSecretNotFoundError'' (no_secrets_text env))
      | Secrets_toml m \<Rightarrow>
          (case m k of
             None \<Rightarrow> Inl (Exception ''KeyError'' (missing_key_text env k))
           | Some v \<Rightarrow> Inr v))"

definition script ::
  "'img env \<Rightarrow> secret_storage \<Rightarrow> input \<Rightarrow> conversations option \<Rightarrow> 'img run" where
  "script env secrets inp file =
     (case secrets_getitem env secrets ''OPENAI_API_KEY'' of
        Inl e \<Rightarrow>
          \<lparr>status = Uncaught e, database = file, screen = [Exception_box e], requests = []\<rparr>
      | Inr api_key \<Rightarrow>
          if api_key = [] then
            \<lparr>status = Stopped, database = file,
             screen = [Error ''OpenAI API key not found. Please set OPENAI_API_KEY in .env or environment variables.''],
             requests = []\<rparr>
          else
            (let (raised, w) =
                   main env inp \<lparr>db = create_table_if_not_exists file, ui = [], api_log = []\<rparr>
             in case raised of
                  None \<Rightarrow>
                    \<lparr>status = Completed, database = Some (db w), screen = ui w,
                     requests = api_log w\<rparr>
                | Some e \<Rightarrow>
                    \<lparr>status = Uncaught e, database = Some (db w),
                     screen = ui w @ [Exception_box e], requests = api_log w\<rparr>))"

section \<open>Predicates used in the statements\<close>

text \<open>
  The identifiers of a table that only \<^verbatim>\<open>AUTOINCREMENT\<close> inserts have touched grow
  with the order of insertion and never exceed the recorded maximum.
\<close>

definition table_inv :: "conversations \<Rightarrow> bool" where
  "table_inv t =
     (sorted_wrt (<) (map row_id (rows t)) \<and> list_all (\<lambda>r. row_id r \<le> seq t) (rows t))"

text \<open>A byte that holds a six-bit group: its two upper bits are clear.\<close>

definition sextet :: "byte \<Rightarrow> bool" where
  "sextet s = (take_bit 6 s = s)"

section \<open>A small environment to run the program in\<close>

text \<open>
  An image is a picture with a colour mode and pixel data, or a truncated one: its header
  was read but its pixel data cannot be decoded. In this environment a file is a mode
  byte followed by the pixels; an empty file is not an image, the mode byte 2 starts a
  truncated image, and the PNG writer refuses the mode CMYK, as the image library does for
  a JPEG file in that mode. A truncated image fails wherever its pixels are needed.
\<close>

datatype picture = Picture string bytes | Truncated string

definition sample_open :: "bytes \<Rightarrow> exn + picture" where
  "sample_open f =
     (case f of
        [] \<Rightarrow> Inl (Exception ''UnidentifiedImageError'' ''cannot identify image file'')
      | m # px \<Rightarrow>
          if m = 2 then Inr (Truncated ''RGB'')
          else Inr (Picture (if m = 1 then ''CMYK'' else ''RGB'') px))"

definition sample_save :: "picture \<Rightarrow> string \<Rightarrow> exn + bytes" where
  "sample_save img format =
     (case img of
        Truncated m \<Rightarrow> Inl (Exception ''OSError'' ''image file is truncated'')
      | Picture m px \<Rightarrow>
          if m = ''CMYK''
          then Inl (Exception ''OSError'' (''cannot write mode CMYK as '' @ format))
          else Inr (0 # px))"

definition sample_show :: "picture \<Rightarrow> exn option" where
  "sample_show img =
     (case img of
        Truncated m \<Rightarrow> Some (Exception ''OSError'' ''image file is truncated'')
      | Picture m px \<Rightarrow> None)"

definition sample_env :: "picture env" where
  "sample_env =
     \<lparr>image_open = sample_open, image_save = sample_save, sidebar_image = sample_show,
      chat_completions_create = (\<lambda>req. Inr [''Hello!'']),
      now_strftime = ''2024-01-01 12:00:00'',
      missing_key_text = (\<lambda>k. ''st.secrets has no key '' @ k),
      no_secrets_text = ''No secrets found.''\<rparr>"

text \<open>The same environment with an API that cannot be reached.\<close>

definition offline_env :: "picture env" where
  "offline_env =
     sample_env\<lparr>chat_completions_create :=
       (\<lambda>req. Inl (Exception ''APIConnectionError'' ''Connection error.''))\<rparr>"

text \<open>An empty page over an empty table.\<close>

definition fresh :: "picture world" where
  "fresh = \<lparr>db = empty_table, ui = [], api_log = []\<rparr>"

text \<open>A page over a table that already holds two records.\<close>

definition two_rows :: conversations where
  "two_rows =
     \<lparr>rows =
        [\<lparr>row_id = 1, user_prompt = Some ''first'', base64_image = None,
          bot_response = Some ''A'', timestamp = Some ''2023-12-31 09:00:00''\<rparr>,
         \<lparr>row_id = 2, user_prompt = Some ''second'', base64_image = Some ''AAECAw=='',
          bot_response = Some ''B'', timestamp = Some ''2023-12-31 09:05:00''\<rparr>],
      seq = 2\<rparr>"


section \<open>base64 decoding inverts base64 encoding\<close>

lemma b64_alphabet_length: "length b64_alphabet = 64"
  by (simp add: b64_alphabet_def)

lemma b64_alphabet_distinct: "distinct b64_alphabet"
  by (simp add: b64_alphabet_def)

lemma b64_alphabet_no_pad: "CHR ''='' \<notin> set b64_alphabet"
  by (simp add: b64_alphabet_def)

lemma b64_alphabet_ascii: "c \<in> set b64_alphabet \<Longrightarrow> (of_char c :: nat) < 128"
  by (auto simp add: b64_alphabet_def)

lemma and_3: "(a::byte) AND 3 = take_bit 2 a"
  by (simp add: take_bit_eq_mask mask_eq_exp_minus_1)

lemma and_15: "(a::byte) AND 15 = take_bit 4 a"
  by (simp add: take_bit_eq_mask mask_eq_exp_minus_1)

lemma and_63: "(a::byte) AND 63 = take_bit 6 a"
  by (simp add: take_bit_eq_mask mask_eq_exp_minus_1)

lemma byte_bit_bound: "bit (a::byte) n \<Longrightarrow> n < 8"
  by (drule bit_imp_le_length) simp

lemma sextet_less: "sextet s \<Longrightarrow> s < 64"
proof -
  assume "sextet s"
  then have "s = s AND mask 6" by (simp add: sextet_def take_bit_eq_mask)
  moreover have "s AND mask 6 < 2 ^ 6" by (rule and_mask_less') simp
  ultimately show ?thesis by simp
qed

lemma sextet_1: "sextet (drop_bit 2 (a::byte))"
  unfolding sextet_def by (rule bit_eqI) (auto simp: bit_simps dest: byte_bit_bound)

lemma sextet_2: "sextet (push_bit 4 (take_bit 2 (a::byte)) OR drop_bit 4 (b::byte))"
  unfolding sextet_def by (rule bit_eqI) (auto simp: bit_simps dest: byte_bit_bound)

lemma sextet_2_last: "sextet (push_bit 4 (take_bit 2 (a::byte)))"
  unfolding sextet_def by (rule bit_eqI) (auto simp: bit_simps dest: byte_bit_bound)

lemma sextet_3: "sextet (push_bit 2 (take_bit 4 (b::byte)) OR drop_bit 6 (c::byte))"
  unfolding sextet_def by (rule bit_eqI) (auto simp: bit_simps dest: byte_bit_bound)

lemma sextet_3_last: "sextet (push_bit 2 (take_bit 4 (b::byte)))"
  unfolding sextet_def by (rule bit_eqI) (auto simp: bit_simps dest: byte_bit_bound)

lemma sextet_4: "sextet (take_bit 6 (c::byte))"
  unfolding sextet_def by simp

lemma byte_index_cases: "n < 8 \<Longrightarrow> n \<in> {0, 1, 2, 3, 4, 5, 6, 7 :: nat}"
  by auto

lemma join_1_last: "push_bit 2 (drop_bit 2 a) OR drop_bit 4 (push_bit 4 (take_bit 2 a)) = (a::byte)"
proof (rule bit_eqI)
  fix n
  assume "possible_bit TYPE(byte) n"
  then have "n < 8" by (simp add: possible_bit_def)
  then have "n \<in> {0, 1, 2, 3, 4, 5, 6, 7}" by (rule byte_index_cases)
  then show "bit (push_bit 2 (drop_bit 2 a) OR drop_bit 4 (push_bit 4 (take_bit 2 a))) n = bit a n"
    by (elim insertE emptyE) (simp_all add: bit_simps)
qed

lemma join_1: "push_bit 2 (drop_bit 2 a) OR drop_bit 4 (push_bit 4 (take_bit 2 a) OR drop_bit 4 b) = (a::byte)"
proof -
  have "drop_bit 4 (drop_bit 4 b) = 0"
    by (rule bit_eqI) (auto simp: bit_simps dest: byte_bit_bound)
  then show ?thesis by (simp add: join_1_last del: drop_bit_drop_bit)
qed

lemma join_2: "push_bit 4 (take_bit 4 (push_bit 4 (take_bit 2 a) OR drop_bit 4 b)) OR drop_bit 2 (push_bit 2 (take_bit 4 b) OR drop_bit 6 c) = (b::byte)"
  by (rule bit_eqI) (auto simp: bit_simps dest: byte_bit_bound)

lemma join_2_last: "push_bit 4 (take_bit 4 (push_bit 4 (take_bit 2 a) OR drop_bit 4 b)) OR drop_bit 2 (push_bit 2 (take_bit 4 b)) = (b::byte)"
  by (rule bit_eqI) (auto simp: bit_simps dest: byte_bit_bound)

lemma join_3: "push_bit 6 (take_bit 2 (push_bit 2 (take_bit 4 b) OR drop_bit 6 c)) OR take_bit 6 c = (c::byte)"
  by (rule bit_eqI) (auto simp: bit_simps dest: byte_bit_bound)

lemma b2a_in_alphabet: "sextet s \<Longrightarrow> table_b2a_base64 s \<in> set b64_alphabet"
proof -
  assume "sextet s"
  then have "unat s < unat (64::byte)" by (intro unat_mono sextet_less)
  then have "unat s < length b64_alphabet" by (simp add: b64_alphabet_length)
  then show ?thesis unfolding table_b2a_base64_def by (rule nth_mem)
qed

lemma a2b_b2a: 
  assumes "sextet s"
  shows "table_a2b_base64 (table_b2a_base64 s) = s"
proof -
  let ?n = "unat s"
  have "unat s < unat (64::byte)" using assms by (intro unat_mono sextet_less)
  then have n: "?n < length b64_alphabet" by (simp add: b64_alphabet_length)
  have "takeWhile (\<lambda>x. x \<noteq> b64_alphabet ! ?n) b64_alphabet = take ?n b64_alphabet"
  proof (rule takeWhile_eq_take_P_nth)
    fix i assume "i < ?n" "i < length b64_alphabet"
    then show "b64_alphabet ! i \<noteq> b64_alphabet ! ?n"
      using n b64_alphabet_distinct by (simp add: nth_eq_iff_index_eq)
  next
    show "\<not> b64_alphabet ! ?n \<noteq> b64_alphabet ! ?n" by simp
  qed
  then have "length (takeWhile (\<lambda>x. x \<noteq> b64_alphabet ! ?n) b64_alphabet) = ?n"
    using n by simp
  moreover have "b64_alphabet ! ?n \<in> set b64_alphabet" using n by (rule nth_mem)
  ultimately show ?thesis
    by (simp add: table_a2b_base64_def table_b2a_base64_def)
qed

lemma sx_1: "sextet (drop_bit 2 (a::byte))"
  by (rule sextet_1)

lemma sx_2: "sextet (push_bit 4 ((a::byte) AND 3) OR drop_bit 4 (b::byte))"
  by (simp only: and_3 sextet_2)

lemma sx_2_last: "sextet (push_bit 4 ((a::byte) AND 3))"
  by (simp only: and_3 sextet_2_last)

lemma sx_3: "sextet (push_bit 2 ((b::byte) AND 15) OR drop_bit 6 (c::byte))"
  by (simp only: and_15 sextet_3)

lemma sx_3_last: "sextet (push_bit 2 ((b::byte) AND 15))"
  by (simp only: and_15 sextet_3_last)

lemma sx_4: "sextet ((c::byte) AND 63)"
  by (simp only: and_63 sextet_4)

lemma jn_1: "push_bit 2 (drop_bit 2 a) OR drop_bit 4 (push_bit 4 (a AND 3) OR drop_bit 4 b) = (a::byte)"
  by (simp only: and_3 join_1)

lemma jn_1_last: "push_bit 2 (drop_bit 2 a) OR drop_bit 4 (push_bit 4 (a AND 3)) = (a::byte)"
  by (simp only: and_3 join_1_last)

lemma jn_2: "push_bit 4 ((push_bit 4 (a AND 3) OR drop_bit 4 b) AND 15) OR drop_bit 2 (push_bit 2 (b AND 15) OR drop_bit 6 c) = (b::byte)"
  by (simp only: and_3 and_15 join_2)

lemma jn_2_last: "push_bit 4 ((push_bit 4 (a AND 3) OR drop_bit 4 b) AND 15) OR drop_bit 2 (push_bit 2 (b AND 15)) = (b::byte)"
  by (simp only: and_3 and_15 join_2_last)

lemma jn_3: "push_bit 6 ((push_bit 2 (b AND 15) OR drop_bit 6 c) AND 3) OR (c AND 63) = (c::byte)"
  by (simp only: and_3 and_15 and_63 join_3)

lemma a2b_loop_data:
  assumes "sextet s"
  shows "a2b_loop 0 lc p acc (table_b2a_base64 s # cs) = a2b_loop 1 s 0 acc cs"
    and "a2b_loop 1 lc p acc (table_b2a_base64 s # cs) =
           a2b_loop 2 (s AND 15) 0 (acc @ [push_bit 2 lc OR drop_bit 4 s]) cs"
    and "a2b_loop 2 lc p acc (table_b2a_base64 s # cs) =
           a2b_loop 3 (s AND 3) 0 (acc @ [push_bit 4 lc OR drop_bit 2 s]) cs"
    and "a2b_loop 3 lc p acc (table_b2a_base64 s # cs) =
           a2b_loop 0 0 0 (acc @ [push_bit 6 lc OR s]) cs"
proof -
  have "table_b2a_base64 s \<noteq> CHR ''=''"
    using b2a_in_alphabet [OF assms] b64_alphabet_no_pad by auto
  moreover have "\<not> 64 \<le> s" using sextet_less [OF assms] by simp
  ultimately show
    "a2b_loop 0 lc p acc (table_b2a_base64 s # cs) = a2b_loop 1 s 0 acc cs"
    "a2b_loop 1 lc p acc (table_b2a_base64 s # cs) =
           a2b_loop 2 (s AND 15) 0 (acc @ [push_bit 2 lc OR drop_bit 4 s]) cs"
    "a2b_loop 2 lc p acc (table_b2a_base64 s # cs) =
           a2b_loop 3 (s AND 3) 0 (acc @ [push_bit 4 lc OR drop_bit 2 s]) cs"
    "a2b_loop 3 lc p acc (table_b2a_base64 s # cs) =
           a2b_loop 0 0 0 (acc @ [push_bit 6 lc OR s]) cs"
    by (simp_all add: a2b_b2a [OF assms])
qed

lemma a2b_loop_pad_2: "a2b_loop 2 lc 0 acc (CHR ''='' # CHR ''='' # cs) = Inr acc"
  by simp

lemma a2b_loop_pad_3: "a2b_loop 3 lc 0 acc (CHR ''='' # cs) = Inr acc"
  by simp

lemma a2b_loop_b64encode: "a2b_loop 0 lc p acc (b64encode bs) = Inr (acc @ bs)"
proof (induction bs arbitrary: lc p acc rule: b64encode.induct)
  case 1
  show ?case by simp
next
  case (2 a)
  have "a2b_loop 0 lc p acc (b64encode [a]) = Inr (acc @ [a])"
    by (simp only: b64encode.simps a2b_loop_data sx_1 sx_2_last jn_1_last a2b_loop_pad_2)
  then show ?case .
next
  case (3 a b)
  have "a2b_loop 0 lc p acc (b64encode [a, b]) = Inr ((acc @ [a]) @ [b])"
    by (simp only: b64encode.simps a2b_loop_data sx_1 sx_2 sx_3_last jn_1 jn_2_last a2b_loop_pad_3)
  then show ?case by simp
next
  case (4 a b c rest)
  have "a2b_loop 0 lc p acc (b64encode (a # b # c # rest)) =
        a2b_loop 0 0 0 (((acc @ [a]) @ [b]) @ [c]) (b64encode rest)"
    by (simp only: b64encode.simps append_Cons append_Nil a2b_loop_data
        sx_1 sx_2 sx_3 sx_4 jn_1 jn_2 jn_3)
  then show ?case by (simp add: "4.IH")
qed

lemma b64encode_chars: "set (b64encode bs) \<subseteq> insert (CHR ''='') (set b64_alphabet)"
proof (induction bs rule: b64encode.induct)
  case 1
  show ?case by simp
next
  case (2 a)
  show ?case
    by (simp only: b64encode.simps list.set insert_subset insert_iff empty_subsetI
        b2a_in_alphabet sx_1 sx_2_last simp_thms)
next
  case (3 a b)
  show ?case
    by (simp only: b64encode.simps list.set insert_subset insert_iff empty_subsetI
        b2a_in_alphabet sx_1 sx_2 sx_3_last simp_thms)
next
  case (4 a b c rest)
  then show ?case
    by (simp only: b64encode.simps list.set set_append Un_subset_iff insert_subset
        insert_iff empty_subsetI b2a_in_alphabet sx_1 sx_2 sx_3 sx_4 simp_thms)
qed

lemma b64encode_ascii: "\<not> list_ex (\<lambda>c. 128 \<le> (of_char c :: nat)) (b64encode bs)"
proof -
  have pad: "(of_char (CHR ''='') :: nat) < 128" by simp
  have "(of_char c :: nat) < 128" if "c \<in> set (b64encode bs)" for c
  proof -
    from that b64encode_chars have "c = CHR ''='' \<or> c \<in> set b64_alphabet" by blast
    then show ?thesis using pad b64_alphabet_ascii [of c] by blast
  qed
  then show ?thesis by (auto simp: list_ex_iff not_le)
qed

lemma b64decode_b64encode: "b64decode (b64encode bs) = Inr bs"
  by (simp add: b64decode_def b64encode_ascii a2b_base64_def a2b_loop_b64encode)

lemma b64encode_nonempty: "bs \<noteq> [] \<Longrightarrow> b64encode bs \<noteq> []"
  by (induction bs rule: b64encode.induct) simp_all

section \<open>Identifiers and the order of the rows\<close>

lemma fold_max_ge: "a \<le> fold max xs (a::nat)"
proof (induction xs arbitrary: a)
  case Nil
  show ?case by simp
next
  case (Cons x xs)
  have "max x a \<le> fold max xs (max x a)" by (rule Cons.IH)
  then show ?case by simp
qed

lemma fold_max_mem: "x \<in> set xs \<Longrightarrow> x \<le> fold max xs (a::nat)"
proof (induction xs arbitrary: a)
  case Nil
  then show ?case by simp
next
  case (Cons y ys)
  show ?case
  proof (cases "x = y")
    case True
    have "max y a \<le> fold max ys (max y a)" by (rule fold_max_ge)
    with True show ?thesis by simp
  next
    case False
    with Cons show ?thesis by simp
  qed
qed

lemma next_id_fresh: "r \<in> set (rows t) \<Longrightarrow> row_id r < next_id t"
  unfolding next_id_def using fold_max_mem [of "row_id r" "map row_id (rows t)" "seq t"]
  by (simp add: less_Suc_eq_le)

lemma table_inv_empty: "table_inv empty_table"
  by (simp add: table_inv_def empty_table_def)

lemma table_inv_insert_row: "table_inv t \<Longrightarrow> table_inv (insert_row up img resp ts t)"
  unfolding table_inv_def insert_row_def
  by (auto simp: sorted_wrt_append list_all_iff next_id_fresh dest: next_id_fresh less_imp_le)

lemma select_desc_inv: "table_inv t \<Longrightarrow> select_desc t = rev (map (\<lambda>r. (user_prompt r, base64_image r, bot_response r, timestamp r)) (rows t))"
proof -
  assume "table_inv t"
  then have "sorted_wrt (<) (map row_id (rows t))" by (simp add: table_inv_def)
  then have "sorted (map row_id (rows t))" by (rule strict_sorted_imp_sorted)
  then have "sort_key row_id (rows t) = rows t" by (rule sort_key_id_if_sorted)
  then show ?thesis by (simp add: select_desc_def rev_map)
qed

section \<open>The Send block and a run of main\<close>

lemma show_ui_simps [simp]:
  "db (show_ui es w) = db w"
  "ui (show_ui es w) = ui w @ es"
  "api_log (show_ui es w) = api_log w"
  by (simp_all add: show_ui_def)

lemma strip_blank_iff: "strip s = [] \<longleftrightarrow> list_all py_isspace s"
proof
  assume "list_all py_isspace s"
  then have d: "dropWhile py_isspace s = []" by (simp add: list_all_iff)
  show "strip s = []" unfolding strip_def d by simp
next
  assume "strip s = []"
  then have all: "\<forall>c\<in>set (dropWhile py_isspace s). py_isspace c"
    by (simp add: strip_def)
  have "dropWhile py_isspace s = []"
  proof (rule ccontr)
    assume ne: "dropWhile py_isspace s \<noteq> []"
    then have "\<not> py_isspace (hd (dropWhile py_isspace s))" by (rule hd_dropWhile)
    moreover from ne have "hd (dropWhile py_isspace s) \<in> set (dropWhile py_isspace s)"
      by (rule hd_in_set)
    ultimately show False using all by blast
  qed
  then show "list_all py_isspace s" by (simp add: list_all_iff)
qed

lemma encode_if_present_None [simp]: "encode_if_present env None = Inr None"
  by (simp add: encode_if_present_def)

lemma encode_if_present_Some:
  "encode_if_present env (Some img) =
     (case image_save env img ''PNG'' of Inl e \<Rightarrow> Inl e | Inr png \<Rightarrow> Inr (Some (b64encode png)))"
  by (simp add: encode_if_present_def encode_image_to_base64_def split: sum.splits)

lemma send_rejected:
  "strip p = [] \<Longrightarrow>
   send env p None w = (None, show_ui [Warning ''Please provide a prompt or an image.''] w)"
  by (simp add: send_def)

lemma send_accepted:
  assumes "strip p \<noteq> [] \<or> image_obj \<noteq> None"
    and "encode_if_present env image_obj = Inr b64"
  shows "send env p image_obj w =
     (None,
      \<lparr>db = save_conversation env p b64
              (response_or_error (call_model env (build_request p b64))) (db w),
       ui = ui w @ [Subheader ''Response:'',
                    Write (response_or_error (call_model env (build_request p b64)))],
       api_log = api_log w @ [build_request p b64]\<rparr>)"
  using assms by (auto simp: send_def analyze_image_with_prompt_def show_ui_def Let_def)

lemma send_encode_fails:
  assumes "encode_if_present env image_obj = Inl e"
  shows "send env p image_obj w =
     (Some e, \<lparr>db = db w,
               ui = ui w @ [Subheader ''Response:'', Write (''Error: '' @ str_exn e)],
               api_log = api_log w\<rparr>)"
proof -
  from assms have "image_obj \<noteq> None" by (cases image_obj) simp_all
  with assms show ?thesis
    by (simp add: send_def analyze_image_with_prompt_def show_ui_def)
qed

lemma load_all_frame [simp]:
  "db (load_all env w) = db w"
  "api_log (load_all env w) = api_log w"
  by (simp_all add: load_all_def Let_def)

lemma render_convo_no_warning: "Warning m \<notin> set (render_convo env i c)"
  by (cases c) (auto simp: render_image_def split: option.splits sum.splits)

lemma render_convos_no_warning: "Warning m \<notin> set (render_convos env i cs)"
  by (induction cs arbitrary: i) (simp_all add: render_convo_no_warning)

lemma load_all_ui: "\<exists>es. ui (load_all env w) = ui w @ es \<and> (\<forall>m. Warning m \<notin> set es)"
  by (simp add: load_all_def Let_def render_convos_no_warning)

lemma main_eq:
  "main env inp w =
     (let w1 = show_ui (page_head @ snd (open_upload env (uploaded_file inp))) w;
          res = (if send_clicked inp
                 then send env (prompt inp) (fst (open_upload env (uploaded_file inp))) w1
                 else (None, w1));
          w3 = show_ui [Sidebar_header ''View Stored Conversations''] (snd res)
      in case fst res of
           Some e \<Rightarrow> (Some e, snd res)
         | None \<Rightarrow> (None, if load_clicked inp then load_all env w3 else w3))"
  by (simp add: main_def page_head_def Let_def case_prod_beta split: option.split)

lemma main_sent:
  assumes "send_clicked inp"
    and "send env (prompt inp) (fst (open_upload env (uploaded_file inp)))
           (show_ui (page_head @ snd (open_upload env (uploaded_file inp))) w) = (None, w2)"
  shows "\<exists>es. main env inp w = (None, \<lparr>db = db w2, ui = ui w2 @ es, api_log = api_log w2\<rparr>)
            \<and> (\<forall>m. Warning m \<notin> set es)"
proof (cases "load_clicked inp")
  case True
  obtain es where es: "ui (load_all env (show_ui [Sidebar_header ''View Stored Conversations''] w2))
      = ui (show_ui [Sidebar_header ''View Stored Conversations''] w2) @ es"
     "\<forall>m. Warning m \<notin> set es"
    using load_all_ui by blast
  have "main env inp w = (None, load_all env (show_ui [Sidebar_header ''View Stored Conversations''] w2))"
    using assms True by (simp add: main_eq Let_def)
  moreover have "load_all env (show_ui [Sidebar_header ''View Stored Conversations''] w2)
     = \<lparr>db = db w2, ui = ui w2 @ (Sidebar_header ''View Stored Conversations'' # es), api_log = api_log w2\<rparr>"
    using es(1) by (intro world.equality) simp_all
  ultimately show ?thesis using es(2) by auto
next
  case False
  have "main env inp w = (None, show_ui [Sidebar_header ''View Stored Conversations''] w2)"
    using assms False by (simp add: main_eq Let_def)
  moreover have "show_ui [Sidebar_header ''View Stored Conversations''] w2
     = \<lparr>db = db w2, ui = ui w2 @ [Sidebar_header ''View Stored Conversations''], api_log = api_log w2\<rparr>"
    by (intro world.equality) simp_all
  ultimately show ?thesis by auto
qed

lemma insert_row_rows:
  "rows (insert_row up img resp ts t) =
     rows t @ [\<lparr>row_id = next_id t, user_prompt = up, base64_image = img,
                bot_response = resp, timestamp = ts\<rparr>]"
  by (simp add: insert_row_def)



lemma open_upload_fails:
  "image_open env f = Inl e \<Longrightarrow>
   open_upload env (Some f) = (None, [Error (''Error reading image: '' @ str_exn e)])"
  by (simp add: open_upload_def)

lemma send_without_image_returns: "fst (send env p None w) = None"
proof (cases "strip p = []")
  case True
  then show ?thesis by (simp add: send_rejected)
next
  case False
  then have "strip p \<noteq> [] \<or> (None :: 'a option) \<noteq> None" by simp
  from send_accepted [OF this encode_if_present_None] show ?thesis by simp
qed

lemma send_ui_extends: "\<exists>es. ui (snd (send env p io w)) = ui w @ es"
proof (cases "strip p = [] \<and> io = None")
  case True
  then show ?thesis by (simp add: send_rejected)
next
  case False
  then have acc: "strip p \<noteq> [] \<or> io \<noteq> None" by simp
  show ?thesis
  proof (cases "encode_if_present env io")
    case (Inl e)
    then show ?thesis by (simp add: send_encode_fails)
  next
    case (Inr b64)
    show ?thesis unfolding send_accepted [OF acc Inr] by simp
  qed
qed

lemma main_ui_extends:
  "\<exists>shown. ui (snd (main env inp w)) =
     ui w @ page_head @ snd (open_upload env (uploaded_file inp)) @ shown"
proof -
  let ?w1 = "show_ui (page_head @ snd (open_upload env (uploaded_file inp))) w"
  let ?res = "if send_clicked inp
              then send env (prompt inp) (fst (open_upload env (uploaded_file inp))) ?w1
              else (None, ?w1)"
  obtain es where es: "ui (snd ?res) = ui ?w1 @ es"
    using send_ui_extends [of env "prompt inp" "fst (open_upload env (uploaded_file inp))" ?w1]
    by (cases "send_clicked inp") auto
  obtain ls where ls: "ui (load_all env (show_ui [Sidebar_header ''View Stored Conversations''] (snd ?res)))
      = ui (show_ui [Sidebar_header ''View Stored Conversations''] (snd ?res)) @ ls"
    using load_all_ui by blast
  show ?thesis
  proof (cases "fst ?res")
    case (Some e)
    then have "snd (main env inp w) = snd ?res" by (simp add: main_eq Let_def)
    with es show ?thesis by simp
  next
    case None
    show ?thesis
    proof (cases "load_clicked inp")
      case True
      with None have "snd (main env inp w) =
          load_all env (show_ui [Sidebar_header ''View Stored Conversations''] (snd ?res))"
        by (simp add: main_eq Let_def)
      with es ls show ?thesis by simp
    next
      case False
      with None have "snd (main env inp w) =
          show_ui [Sidebar_header ''View Stored Conversations''] (snd ?res)"
        by (simp add: main_eq Let_def)
      with es show ?thesis by simp
    qed
  qed
qed


lemma empty_key_stops:
  "m ''OPENAI_API_KEY'' = Some [] \<Longrightarrow>
   script env (Secrets_toml m) inp file =
     \<lparr>status = Stopped, database = file,
      screen = [Error ''OpenAI API key not found. Please set OPENAI_API_KEY in .env or environment variables.''],
      requests = []\<rparr>"
  by (simp add: script_def secrets_getitem_def)

lemmas sample_defs = sample_env_def sample_open_def sample_save_def sample_show_def fresh_def
  empty_table_def

section \<open>The claims\<close>

subsection \<open>C1: every accepted submission is persisted\<close>

text \<open>
  C1 says that every submission the Send action accepts inserts exactly one record.
  The program re-encodes the image on line 139, outside the \<^verbatim>\<open>try\<close> that guards the
  same call inside \<^verbatim>\<open>analyze_image_with_prompt\<close>. For an image that opens but cannot
  be written as PNG the exception is first caught and shown as the response, then raised
  again by line 139 and leaves \<^verbatim>\<open>main\<close> before \<^verbatim>\<open>save_conversation\<close> is reached:
  the submission is accepted, the error text is displayed, and no record is inserted.
  The run below is such a submission; \<open>send_encode_fails\<close> is the general fact.
\<close>

theorem unencodable_image_not_persisted:
  "main sample_env \<lparr>prompt = ''describe this'', uploaded_file = Some [1, 7, 7],
                 send_clicked = True, load_clicked = False\<rparr> fresh =
     (Some (Exception ''OSError'' ''cannot write mode CMYK as PNG''),
      \<lparr>db = empty_table,
       ui = [Title ''Simple Image+Text Chatbot with SQLite'',
             Write ''A Streamlit chatbot that can optionally handle images and stores conversations in SQLite.'',
             Subheader ''Response:'',
             Write ''Error: cannot write mode CMYK as PNG''],
       api_log = []\<rparr>)"
  by (simp add: main_eq Let_def page_head_def open_upload_def send_def analyze_image_with_prompt_def
      encode_if_present_def encode_image_to_base64_def strip_def py_isspace_def show_ui_def sample_defs)

subsection \<open>C2: a missing API key\<close>

text \<open>
  C2: if the API key is absent from the secrets (there is no secrets file, or the file
  does not define the key), the subscript of line 14 raises. The exception leaves the
  script before any element is written, before the table is created and before
  \<^verbatim>\<open>main\<close> runs: no interaction is served, no request is sent and the database
  file is untouched; the framework ends the run and shows the exception on the page. The
  message of the guard of lines 16 to 18 is the one shown for a key that is present and
  empty (\<open>empty_key_stops\<close>).
\<close>

theorem absent_key_halts_with_error:
  assumes "key_absent secrets ''OPENAI_API_KEY''"
  shows "\<exists>e. script env secrets inp file =
           \<lparr>status = Uncaught e, database = file, screen = [Exception_box e],
            requests = []\<rparr>"
  using assms by (cases secrets) (simp_all add: script_def secrets_getitem_def)

text \<open>No secrets file at all, and a secrets file without the key.\<close>

theorem absent_key_halts_with_error_witness:
  "(\<exists>e. script sample_env No_secrets_file
          \<lparr>prompt = ''hi'', uploaded_file = None, send_clicked = True, load_clicked = False\<rparr>
          None =
        \<lparr>status = Uncaught e, database = None, screen = [Exception_box e],
         requests = []\<rparr>) \<and>
   (\<exists>e. script sample_env (Secrets_toml [''OTHER_KEY'' \<mapsto> ''x''])
          \<lparr>prompt = ''hi'', uploaded_file = None, send_clicked = True, load_clicked = False\<rparr>
          (Some two_rows) =
        \<lparr>status = Uncaught e, database = Some two_rows, screen = [Exception_box e],
         requests = []\<rparr>)"
proof
  show "\<exists>e. script sample_env No_secrets_file
          \<lparr>prompt = ''hi'', uploaded_file = None, send_clicked = True, load_clicked = False\<rparr>
          None =
        \<lparr>status = Uncaught e, database = None, screen = [Exception_box e],
         requests = []\<rparr>"
    by (rule absent_key_halts_with_error) simp
  show "\<exists>e. script sample_env (Secrets_toml [''OTHER_KEY'' \<mapsto> ''x''])
          \<lparr>prompt = ''hi'', uploaded_file = None, send_clicked = True, load_clicked = False\<rparr>
          (Some two_rows) =
        \<lparr>status = Uncaught e, database = Some two_rows, screen = [Exception_box e],
         requests = []\<rparr>"
    by (rule absent_key_halts_with_error) simp
qed

subsection \<open>C3: the newest record comes first\<close>

text \<open>
  C3: for every state of the conversations table that \<^verbatim>\<open>AUTOINCREMENT\<close> inserts have
  produced (\<open>table_inv\<close>; it holds for the empty table and is kept by every insert and
  by every run of \<^verbatim>\<open>main\<close>), \<open>load_conversations\<close> returns all stored records, each
  with its four selected columns, in the exact reverse of the order of insertion.
\<close>

theorem load_newest_first:
  assumes "table_inv t"
  shows "load_conversations t =
           rev (map (\<lambda>r. (user_prompt r, base64_image r, bot_response r, timestamp r)) (rows t))"
  unfolding load_conversations_def using assms by (rule select_desc_inv)

text \<open>
Two records saved one after the other come back newest first.
\<close>

theorem load_newest_first_witness:
  "load_conversations
     (save_conversation sample_env ''second'' None ''B''
        (save_conversation sample_env ''first'' None ''A'' empty_table)) =
   [(Some ''second'', None, Some ''B'', Some ''2024-01-01 12:00:00''),
    (Some ''first'', None, Some ''A'', Some ''2024-01-01 12:00:00'')]"
proof -
  have "table_inv (save_conversation sample_env ''second'' None ''B''
        (save_conversation sample_env ''first'' None ''A'' empty_table))"
    unfolding save_conversation_def
    by (intro table_inv_insert_row table_inv_empty)
  from load_newest_first [OF this] show ?thesis
    by (simp add: save_conversation_def insert_row_rows sample_defs)
qed

subsection \<open>C4: an image through encoding and decoding\<close>

text \<open>
  C4 says that every image of a supported upload format comes back from encoding and
  decoding. \<open>encode_image_to_base64\<close> writes the image as PNG without converting its
  mode, so for an image that the library opens but refuses to write as PNG, such as a
  JPEG file in the mode CMYK, it raises: nothing is encoded and there is nothing to decode.
\<close>

theorem cmyk_image_not_encoded:
  "image_open sample_env [1, 7, 7] = Inr (Picture ''CMYK'' [7, 7]) \<and>
   encode_image_to_base64 sample_env (Picture ''CMYK'' [7, 7]) =
     Inl (Exception ''OSError'' ''cannot write mode CMYK as PNG'')"
  by (simp add: encode_image_to_base64_def sample_defs)

text \<open>
  For an image that is written as PNG, the history hands to \<^verbatim>\<open>Image.open\<close> exactly
  the PNG bytes that were written, since base64 decoding inverts base64 encoding
  (\<open>b64decode_b64encode\<close>). Which pixels the library reads back from them is the PNG
  codec's matter; the codec is a parameter here.
\<close>

lemma history_reopens_written_png:
  assumes "image_save env img ''PNG'' = Inr png"
    and "png \<noteq> []"
  shows "encode_image_to_base64 env img = Inr (b64encode png) \<and>
         b64decode (b64encode png) = Inr png \<and>
         render_image env (b64encode png) =
           (case image_open env png of
              Inl e \<Rightarrow> []
            | Inr img' \<Rightarrow>
                (case sidebar_image env img' of
                   Some e \<Rightarrow> []
                 | None \<Rightarrow> [Sidebar_image img' ''Uploaded Image'']))"
  using assms
  by (simp add: encode_image_to_base64_def b64decode_b64encode render_image_def)

subsection \<open>C5: a failing API call\<close>

text \<open>
  C5: for every exception \<open>e\<close> raised by the external API call of an accepted
  submission (the call is made only once the image, if any, has been encoded), the
  exception is caught: \<^verbatim>\<open>main\<close> returns normally, the text \<^verbatim>\<open>Error: \<close> followed by
  the literal text of \<open>e\<close> is written to the page and stored as the bot response of the
  one record that is inserted, and exactly one request has been sent, so nothing is
  retried.
\<close>

theorem api_failure_stored_and_shown:
  assumes "send_clicked inp"
    and "fst (open_upload env (uploaded_file inp)) = image_obj"
    and "strip (prompt inp) \<noteq> [] \<or> image_obj \<noteq> None"
    and "encode_if_present env image_obj = Inr b64"
    and "chat_completions_create env (build_request (prompt inp) b64) = Inl e"
  shows "\<exists>w' r shown. main env inp w = (None, w') \<and>
           api_log w' = api_log w @ [build_request (prompt inp) b64] \<and>
           ui w' = ui w @ shown \<and> Write (''Error: '' @ str_exn e) \<in> set shown \<and>
           rows (db w') = rows (db w) @ [r] \<and>
           bot_response r = Some (''Error: '' @ str_exn e)"
proof -
  let ?w1 = "show_ui (page_head @ snd (open_upload env (uploaded_file inp))) w"
  let ?req = "build_request (prompt inp) b64"
  let ?txt = "''Error: '' @ str_exn e"
  let ?w2 = "\<lparr>db = save_conversation env (prompt inp) b64 ?txt (db ?w1),
             ui = ui ?w1 @ [Subheader ''Response:'', Write ?txt],
             api_log = api_log ?w1 @ [?req]\<rparr>"
  from assms(5) have "response_or_error (call_model env ?req) = ?txt"
    by (simp add: call_model_def)
  with send_accepted [OF assms(3,4), of ?w1]
  have "send env (prompt inp) (fst (open_upload env (uploaded_file inp))) ?w1 = (None, ?w2)"
    using assms(2) by simp
  from main_sent [OF assms(1) this] obtain es where
    "main env inp w = (None, \<lparr>db = db ?w2, ui = ui ?w2 @ es, api_log = api_log ?w2\<rparr>)"
    by blast
  then show ?thesis by (simp add: save_conversation_def insert_row_rows)
qed

text \<open>
A text-only submission while the API cannot be reached.
\<close>

theorem api_failure_stored_and_shown_witness:
  "\<exists>w' r shown.
     main offline_env \<lparr>prompt = ''hi'', uploaded_file = None, send_clicked = True,
                       load_clicked = False\<rparr> fresh = (None, w') \<and>
     api_log w' = api_log fresh @ [build_request ''hi'' None] \<and>
     ui w' = ui fresh @ shown \<and> Write ''Error: Connection error.'' \<in> set shown \<and>
     rows (db w') = rows (db fresh) @ [r] \<and>
     bot_response r = Some ''Error: Connection error.''"
  using api_failure_stored_and_shown
    [of "\<lparr>prompt = ''hi'', uploaded_file = None, send_clicked = True, load_clicked = False\<rparr>"
        offline_env None None "Exception ''APIConnectionError'' ''Connection error.''" fresh]
  by (simp add: open_upload_def strip_def py_isspace_def offline_env_def sample_defs)

subsection \<open>C6: a blank submission without an image\<close>

text \<open>
  C6: for every submission whose prompt is empty or consists of whitespace only and which
  has no image (none uploaded, or the upload could not be opened), the warning is shown,
  no request is sent to the API and the table is unchanged.
\<close>

theorem blank_submission_rejected:
  assumes "send_clicked inp"
    and "\<forall>c\<in>set (prompt inp). py_isspace c"
    and "fst (open_upload env (uploaded_file inp)) = None"
  shows "\<exists>w' shown. main env inp w = (None, w') \<and> ui w' = ui w @ shown \<and>
           Warning ''Please provide a prompt or an image.'' \<in> set shown \<and>
           api_log w' = api_log w \<and> db w' = db w"
proof -
  let ?w1 = "show_ui (page_head @ snd (open_upload env (uploaded_file inp))) w"
  let ?w2 = "show_ui [Warning ''Please provide a prompt or an image.''] ?w1"
  from assms(2) have "strip (prompt inp) = []" by (simp add: strip_blank_iff list_all_iff)
  then have "send env (prompt inp) (fst (open_upload env (uploaded_file inp))) ?w1 = (None, ?w2)"
    using assms(3) by (simp add: send_rejected)
  from main_sent [OF assms(1) this] obtain es where
    "main env inp w = (None, \<lparr>db = db ?w2, ui = ui ?w2 @ es, api_log = api_log ?w2\<rparr>)"
    by blast
  then show ?thesis by simp
qed

text \<open>
Two spaces and no upload.
\<close>

theorem blank_submission_rejected_witness:
  "\<exists>w' shown.
     main sample_env \<lparr>prompt = ''  '', uploaded_file = None, send_clicked = True,
                    load_clicked = False\<rparr> fresh = (None, w') \<and>
     ui w' = ui fresh @ shown \<and>
     Warning ''Please provide a prompt or an image.'' \<in> set shown \<and>
     api_log w' = api_log fresh \<and> db w' = db fresh"
  by (rule blank_submission_rejected) (simp_all add: py_isspace_def open_upload_def)

subsection \<open>C7: failures to decode an image\<close>

text \<open>
  C7 says that every failure in image decoding is caught. The two places the claim names
  behave as it says. A failure to open the uploaded file is reported on the page and
  \<^verbatim>\<open>main\<close> returns normally; a stored image whose base64 text does not decode, whose
  bytes do not open as an image, or which cannot be shown, is skipped silently, with the
  rest of its record and the records after it still rendered.
\<close>

lemma upload_open_failure_reported:
  assumes "uploaded_file inp = Some f" and "image_open env f = Inl e"
  shows "\<exists>w' shown. main env inp w = (None, w') \<and> ui w' = ui w @ shown \<and>
           Error (''Error reading image: '' @ str_exn e) \<in> set shown"
proof -
  have up: "open_upload env (uploaded_file inp) =
      (None, [Error (''Error reading image: '' @ str_exn e)])"
    using assms by (simp add: open_upload_fails)
  have "fst (main env inp w) = None"
    using send_without_image_returns [of env "prompt inp"]
    by (simp add: main_eq Let_def up split: option.split)
  moreover obtain shown where "ui (snd (main env inp w)) =
      ui w @ page_head @ snd (open_upload env (uploaded_file inp)) @ shown"
    using main_ui_extends by blast
  ultimately have "main env inp w = (None, snd (main env inp w)) \<and>
      ui (snd (main env inp w)) =
        ui w @ (page_head @ [Error (''Error reading image: '' @ str_exn e)] @ shown) \<and>
      Error (''Error reading image: '' @ str_exn e)
        \<in> set (page_head @ [Error (''Error reading image: '' @ str_exn e)] @ shown)"
    using up by (simp add: prod_eq_iff)
  then show ?thesis by blast
qed

lemma stored_image_failure_skipped:
  assumes "b64decode s = Inl e \<or>
           (\<exists>d. b64decode s = Inr d \<and>
              (image_open env d = Inl e \<or>
               (\<exists>img. image_open env d = Inr img \<and> sidebar_image env img = Some e)))"
  shows "render_convos env idx ((up, Some s, resp, ts) # rest) =
           [Sidebar_markdown (''**'' @ string_of_nat idx @ ''. Timestamp**: '' @ fmt ts),
            Sidebar_markdown (''**User Prompt**: '' @ fmt up),
            Sidebar_markdown (''**Bot Response**: '' @ fmt resp),
            Sidebar_write ''---'']
           @ render_convos env (Suc idx) rest"
proof -
  from assms have "render_image env s = []" by (auto simp: render_image_def)
  then show ?thesis by simp
qed

text \<open>
  C7 fails for a decoding failure that surfaces later. \<^verbatim>\<open>Image.open\<close> reads only
  the header, so a truncated upload opens on line 118; its pixel data is decoded inside
  \<^verbatim>\<open>save\<close>. The failure raised on line 81 is caught and shown, the same failure
  raised on line 139 is outside every \<^verbatim>\<open>try\<close> and leaves \<^verbatim>\<open>main\<close>. This is the
  unguarded call of C1.
\<close>

theorem truncated_upload_escapes:
  "main sample_env \<lparr>prompt = ''what is this'', uploaded_file = Some [2, 7, 7],
                    send_clicked = True, load_clicked = False\<rparr> fresh =
     (Some (Exception ''OSError'' ''image file is truncated''),
      \<lparr>db = empty_table,
       ui = [Title ''Simple Image+Text Chatbot with SQLite'',
             Write ''A Streamlit chatbot that can optionally handle images and stores conversations in SQLite.'',
             Subheader ''Response:'',
             Write ''Error: image file is truncated''],
       api_log = []\<rparr>)"
  by (simp add: main_eq Let_def page_head_def open_upload_def send_def analyze_image_with_prompt_def
      encode_if_present_def encode_image_to_base64_def strip_def py_isspace_def show_ui_def sample_defs)

subsection \<open>C8: the table only grows\<close>



subsection \<open>C9: images are stored and sent as PNG\<close>

text \<open>
  C9: for every uploaded file that opens as an image, whatever its format, a submission
  writes the image with the format name \<^verbatim>\<open>PNG\<close>; the base64 text of those PNG bytes
  is what the inserted record stores and what the request carries, in a URL that starts
  with \<^verbatim>\<open>data:image/png;base64,\<close>. When the PNG writer raises, nothing is sent and
  nothing is stored.
\<close>

theorem images_always_png:
  assumes "send_clicked inp"
    and "fst (open_upload env (uploaded_file inp)) = Some img"
  shows "case image_save env img ''PNG'' of
           Inl e \<Rightarrow>
             api_log (snd (main env inp w)) = api_log w \<and> db (snd (main env inp w)) = db w
         | Inr png \<Rightarrow>
             \<exists>r. api_log (snd (main env inp w)) =
                    api_log w @
                    [\<lparr>model = ''gpt-4o-mini'',
                      messages =
                        [\<lparr>role = ''user'',
                          content =
                            Text_part (prompt inp) #
                            (if png \<noteq> []
                             then [Image_url_part (''data:image/png;base64,'' @ b64encode png)]
                             else [])\<rparr>],
                      max_tokens = 300\<rparr>] \<and>
                  rows (db (snd (main env inp w))) = rows (db w) @ [r] \<and>
                  base64_image r = Some (b64encode png)"
proof (cases "image_save env img ''PNG''")
  case (Inl e)
  let ?w1 = "show_ui (page_head @ snd (open_upload env (uploaded_file inp))) w"
  have "encode_if_present env (Some img) = Inl e" using Inl by (simp add: encode_if_present_Some)
  from send_encode_fails [OF this, of "prompt inp" ?w1]
  show ?thesis using assms Inl by (simp add: main_eq Let_def)
next
  case (Inr png)
  let ?w1 = "show_ui (page_head @ snd (open_upload env (uploaded_file inp))) w"
  let ?b64 = "Some (b64encode png)"
  let ?r = "response_or_error (call_model env (build_request (prompt inp) ?b64))"
  let ?w2 = "\<lparr>db = save_conversation env (prompt inp) ?b64 ?r (db ?w1),
             ui = ui ?w1 @ [Subheader ''Response:'', Write ?r],
             api_log = api_log ?w1 @ [build_request (prompt inp) ?b64]\<rparr>"
  have enc: "encode_if_present env (Some img) = Inr ?b64"
    using Inr by (simp add: encode_if_present_Some)
  have acc: "strip (prompt inp) \<noteq> [] \<or> Some img \<noteq> None" by simp
  have "send env (prompt inp) (fst (open_upload env (uploaded_file inp))) ?w1 = (None, ?w2)"
    using send_accepted [OF acc enc, of ?w1] assms(2) by simp
  from main_sent [OF assms(1) this] obtain es where
    "main env inp w = (None, \<lparr>db = db ?w2, ui = ui ?w2 @ es, api_log = api_log ?w2\<rparr>)"
    by blast
  then show ?thesis using Inr
    by (simp add: save_conversation_def insert_row_rows build_request_def content_list_def
        b64encode_nonempty)
qed

text \<open>
An RGB upload in the sample environment.
\<close>

theorem images_always_png_witness:
  "\<exists>r. api_log (snd (main sample_env \<lparr>prompt = ''what is this'', uploaded_file = Some [0, 1, 2, 3],
                                     send_clicked = True, load_clicked = False\<rparr> fresh)) =
          api_log fresh @
          [\<lparr>model = ''gpt-4o-mini'',
            messages =
              [\<lparr>role = ''user'',
                content = [Text_part ''what is this'',
                           Image_url_part ''data:image/png;base64,AAECAw=='']\<rparr>],
            max_tokens = 300\<rparr>] \<and>
        rows (db (snd (main sample_env \<lparr>prompt = ''what is this'', uploaded_file = Some [0, 1, 2, 3],
                                     send_clicked = True, load_clicked = False\<rparr> fresh))) =
          rows (db fresh) @ [r] \<and>
        base64_image r = Some ''AAECAw==''"
  using images_always_png
    [of "\<lparr>prompt = ''what is this'', uploaded_file = Some [0, 1, 2, 3],
            send_clicked = True, load_clicked = False\<rparr>" sample_env "Picture ''RGB'' [1, 2, 3]" fresh]
  by (simp add: open_upload_def sample_defs table_b2a_base64_def b64_alphabet_def)

subsection \<open>C10: a blank prompt with an image\<close>




end
